theory Spec2Isabelle
  imports Main
begin

text \<open>
  The workflow-graph runtime (graph.py, nodes.py, state.py) and the retry counter of
  the tool-invocation collaborator (retrievers.py), as HOL functions: construction of a graph from node types, one call of \<open>next\<close>, the loop of
  \<open>run\<close> with its history, and \<open>Retriever.run\<close>.
\<close>

section \<open>Python values shared by the modules\<close>

text \<open>
  Exceptions are values. Each constructor is one exception class raised in the sources,
  with its message (pydantic's \<open>ValidationError\<close> with its list of errors);
  \<open>OtherError\<close> stands for any other exception class, such as a node's or a retriever
  function's own failure.
  Strings are byte strings (UTF-8).
\<close>

datatype error =
    GraphSetupError string
  | GraphRuntimeError string
  | TypeError string
  | KeyError string
  | LookupError string
  | ValidationError "string list"
  | OtherError string

text \<open>
  A Python \<open>dict\<close> keeps insertion order: it is an association list with distinct keys.
  \<open>dict_set d k v\<close> is \<open>d[k] = v\<close>: an existing key keeps its position.
\<close>

primrec dict_set :: "('k \<times> 'v) list \<Rightarrow> 'k \<Rightarrow> 'v \<Rightarrow> ('k \<times> 'v) list" where
  "dict_set [] k v = [(k, v)]"
| "dict_set (p # ps) k v = (if fst p = k then (k, v) # ps else p # dict_set ps k v)"

definition dict_get :: "('k \<times> 'v) list \<Rightarrow> 'k \<Rightarrow> 'v option" where
  "dict_get d k = map_of d k"

definition dict_keys :: "('k \<times> 'v) list \<Rightarrow> 'k list" where
  "dict_keys d = map fst d"

text \<open>\<open>sep.join(xs)\<close>\<close>

fun join :: "string \<Rightarrow> string list \<Rightarrow> string" where
  "join sep [] = []"
| "join sep [x] = x"
| "join sep (x # y # ys) = x @ sep @ join sep (y # ys)"

definition newline :: string where
  "newline = [CHR 0x0A]"

text \<open>Truth value of an optional string: \<open>None\<close> and the empty string are falsy.\<close>

definition truthy :: "string option \<Rightarrow> bool" where
  "truthy s = (case s of None \<Rightarrow> False | Some t \<Rightarrow> t \<noteq> [])"

section \<open>nodes.py: node types and node definitions\<close>

text \<open>
  A node type is a Python class derived from \<open>BaseNode\<close>. The model keeps what the
  sources read from it: \<open>__name__\<close>, the class variable \<open>node_id\<close>, the text that
  formatting the class in an f-string gives (the metaclass's \<open>__repr__\<close>), the
  docstring, and the members of the return annotation of \<open>run\<close> (\<open>None\<close> when
  \<open>run\<close> has no return annotation).
\<close>

record py_class =
  cls_name :: string
  cls_node_id :: "string option"
  cls_repr :: string

text \<open>
  One member of the return annotation, as \<open>get_node_def\<close> classifies it: \<open>BaseNode\<close>
  itself, a subclass of \<open>BaseNode\<close>, \<open>End\<close>, or anything else (kept as its printed
  form). A member may carry an edge label.
\<close>

datatype return_type =
    RtBaseNode
  | RtNode py_class "string option"
  | RtEnd "string option"
  | RtOther string

record node_type =
  cls :: py_class
  return_hint :: "return_type list option"
  doc :: "string option"

text \<open>\<open>BaseNode.get_id\<close>: \<open>cls.node_id or cls.__name__\<close>; an empty string is falsy.\<close>

definition get_id :: "py_class \<Rightarrow> string" where
  "get_id c = (case cls_node_id c of
                 None \<Rightarrow> cls_name c
               | Some s \<Rightarrow> if s = [] then cls_name c else s)"

text \<open>
  Modelled from the spec: the \<open>NodeDef\<close> and \<open>Edge\<close> classes of pydantic_graph, which
  graph.py and mermaid.py read (\<open>node\<close>, \<open>node_id\<close>, \<open>note\<close>, \<open>next_node_edges\<close>,
  \<open>end_edge\<close>, \<open>returns_base_node\<close>, \<open>label\<close>) and which are not among the sources.
  The spec gives each node its resolved edges (successor identity and optional label),
  a wildcard flag, a terminal flag and an optional note. \<open>get_node_def\<close> below
  classifies the return annotation as nodes.py does and fills these fields.
\<close>

record edge =
  label :: "string option"

record node_def =
  node :: node_type
  node_id :: string
  node_note :: "string option"
  next_node_edges :: "(string \<times> edge) list"
  end_edge :: "edge option"
  returns_base_node :: bool

text \<open>
  The loop of \<open>BaseNode.get_node_def\<close> over the members of the return annotation, in the
  order of its tests: \<open>BaseNode\<close> itself sets the wildcard flag, a subclass adds its
  identity to the successors, \<open>End\<close> sets the terminal edge, anything else raises
  \<open>TypeError\<close>.
\<close>

fun classify_returns ::
  "return_type list \<Rightarrow> (string \<times> edge) list \<times> edge option \<times> bool
     \<Rightarrow> error + ((string \<times> edge) list \<times> edge option \<times> bool)" where
  "classify_returns [] acc = Inr acc"
| "classify_returns (RtBaseNode # rs) (es, e, b) = classify_returns rs (es, e, True)"
| "classify_returns (RtNode c l # rs) (es, e, b) =
     classify_returns rs (dict_set es (get_id c) \<lparr>label = l\<rparr>, e, b)"
| "classify_returns (RtEnd l # rs) (es, e, b) =
     classify_returns rs (es, Some \<lparr>label = l\<rparr>, b)"
| "classify_returns (RtOther t # rs) (es, e, b) = Inl (TypeError (''Invalid return type: '' @ t))"

definition get_node_def :: "node_type \<Rightarrow> error + node_def" where
  "get_node_def nt =
     (case return_hint nt of
        None \<Rightarrow> Inl (KeyError ''return'')
      | Some rs \<Rightarrow>
          (case classify_returns rs ([], None, False) of
             Inl err \<Rightarrow> Inl err
           | Inr (es, e, b) \<Rightarrow>
               Inr \<lparr>node = nt, node_id = get_id (cls nt), node_note = doc nt,
                    next_node_edges = es, end_edge = e, returns_base_node = b\<rparr>))"

section \<open>graph.py: construction\<close>

record graph =
  name :: "string option"
  node_defs :: "(string \<times> node_def) list"

definition em_dash :: string where
  "em_dash = [CHR 0xE2, CHR 0x80, CHR 0x94]"

definition not_unique_msg :: "string \<Rightarrow> node_type \<Rightarrow> node_type \<Rightarrow> string" where
  "not_unique_msg i existing nt =
     ''Node ID `'' @ i @ ''` is not unique '' @ em_dash @ '' found on ''
       @ cls_repr (cls existing) @ '' and '' @ cls_repr (cls nt)"

text \<open>
  \<open>Graph._register_node\<close> on the dictionary \<open>self.node_defs\<close>. The duplicate test comes
  before \<open>get_node_def\<close> is called.
\<close>

definition register_node ::
  "(string \<times> node_def) list \<Rightarrow> node_type \<Rightarrow> error + (string \<times> node_def) list" where
  "register_node defs nt =
     (let i = get_id (cls nt) in
      case dict_get defs i of
        Some existing_node \<Rightarrow> Inl (GraphSetupError (not_unique_msg i (node existing_node) nt))
      | None \<Rightarrow>
          (case get_node_def nt of
             Inl err \<Rightarrow> Inl err
           | Inr d \<Rightarrow> Inr (dict_set defs i d)))"

text \<open>The loop \<open>for node in nodes: self._register_node(node, ...)\<close>.\<close>

fun register_nodes ::
  "(string \<times> node_def) list \<Rightarrow> node_type list \<Rightarrow> error + (string \<times> node_def) list" where
  "register_nodes defs [] = Inr defs"
| "register_nodes defs (nt # nts) =
     (case register_node defs nt of
        Inl err \<Rightarrow> Inl err
      | Inr defs' \<Rightarrow> register_nodes defs' nts)"

text \<open>\<open>bad_edges.setdefault(edge, []).append(v)\<close>\<close>

definition setdefault_append ::
  "(string \<times> string list) list \<Rightarrow> string \<Rightarrow> string \<Rightarrow> (string \<times> string list) list" where
  "setdefault_append bad k v =
     (case dict_get bad k of
        None \<Rightarrow> bad @ [(k, [v])]
      | Some vs \<Rightarrow> dict_set bad k (vs @ [v]))"

text \<open>The inner loop of \<open>_validate_edges\<close> over the successors of one node.\<close>

fun collect_node_edges ::
  "string list \<Rightarrow> string \<Rightarrow> string list \<Rightarrow> (string \<times> string list) list
     \<Rightarrow> (string \<times> string list) list" where
  "collect_node_edges known i [] bad = bad"
| "collect_node_edges known i (e # es) bad =
     collect_node_edges known i es
       (if e \<notin> set known then setdefault_append bad e (''`'' @ i @ ''`'') else bad)"

text \<open>The outer loop over \<open>self.node_defs.items()\<close>.\<close>

fun collect_bad_edges ::
  "string list \<Rightarrow> (string \<times> node_def) list \<Rightarrow> (string \<times> string list) list
     \<Rightarrow> (string \<times> string list) list" where
  "collect_bad_edges known [] bad = bad"
| "collect_bad_edges known ((i, d) # ds) bad =
     collect_bad_edges known ds (collect_node_edges known i (dict_keys (next_node_edges d)) bad)"

definition bad_edge_line :: "(string list \<Rightarrow> string) \<Rightarrow> string \<times> string list \<Rightarrow> string" where
  "bad_edge_line comma_and kv = ''`'' @ fst kv @ ''` is referenced by '' @ comma_and (snd kv)"

text \<open>
  \<open>Graph._validate_edges\<close>. \<open>_utils.comma_and\<close> is not among the sources: it is the
  parameter \<open>comma_and\<close>.
\<close>

definition validate_edges ::
  "(string list \<Rightarrow> string) \<Rightarrow> (string \<times> node_def) list \<Rightarrow> error + unit" where
  "validate_edges comma_and defs =
     (let known_node_ids = dict_keys defs;
          bad_edges = collect_bad_edges known_node_ids defs [];
          bad_edges_list = map (bad_edge_line comma_and) bad_edges
      in if bad_edges = [] then Inr ()
         else if length bad_edges_list = 1
           then Inl (GraphSetupError (bad_edges_list ! 0 @ '' but not included in the graph.''))
           else Inl (GraphSetupError
                  (''Nodes are referenced in the graph but not included in the graph:'' @ newline
                     @ join newline (map (\<lambda>be. '' '' @ be) bad_edges_list))))"

text \<open>\<open>Graph.__init__\<close>\<close>

definition graph_init ::
  "(string list \<Rightarrow> string) \<Rightarrow> node_type list \<Rightarrow> string option \<Rightarrow> error + graph" where
  "graph_init comma_and nodes nm =
     (case register_nodes [] nodes of
        Inl err \<Rightarrow> Inl err
      | Inr defs \<Rightarrow>
          (case validate_edges comma_and defs of
             Inl err \<Rightarrow> Inl err
           | Inr _ \<Rightarrow> Inr \<lparr>name = nm, node_defs = defs\<rparr>))"

section \<open>state.py: the state object and the history records\<close>

text \<open>
  The state is a mutable object shared by reference, or \<open>None\<close>. Objects live in a store:
  an address is an index into \<open>heap\<close>, and the cell holds the object's whole content
  (everything \<open>copy.deepcopy\<close> would copy). A reference held by the program always
  points into the store. The world also carries the clock: \<open>utc_clock k\<close> and
  \<open>perf_clock k\<close> are what \<open>now_utc()\<close> and \<open>perf_counter()\<close> return when \<open>k\<close>
  clock readings have been made before; time stamps and durations are counted in ticks.
\<close>

type_synonym addr = nat

record 'v world =
  heap :: "'v list"
  ticks :: nat
  utc_clock :: "nat \<Rightarrow> int"
  perf_clock :: "nat \<Rightarrow> int"

definition now_utc :: "'v world \<Rightarrow> int \<times> 'v world" where
  "now_utc w = (utc_clock w (ticks w), w\<lparr>ticks := Suc (ticks w)\<rparr>)"

definition perf_counter :: "'v world \<Rightarrow> int \<times> 'v world" where
  "perf_counter w = (perf_clock w (ticks w), w\<lparr>ticks := Suc (ticks w)\<rparr>)"

text \<open>
  \<open>AbstractState.deep_copy\<close>, that is \<open>copy.deepcopy(self)\<close>: a new object with the
  same content. Assigning to the state object at \<open>a\<close> is \<open>mutate\<close>.
\<close>

definition deep_copy :: "'v world \<Rightarrow> addr \<Rightarrow> addr \<times> 'v world" where
  "deep_copy w a = (length (heap w), w\<lparr>heap := heap w @ [heap w ! a]\<rparr>)"

definition mutate :: "'v world \<Rightarrow> addr \<Rightarrow> 'v \<Rightarrow> 'v world" where
  "mutate w a v = w\<lparr>heap := (heap w)[a := v]\<rparr>"

text \<open>\<open>_deep_copy_state\<close>\<close>

definition deep_copy_state :: "'v world \<Rightarrow> addr option \<Rightarrow> addr option \<times> 'v world" where
  "deep_copy_state w st =
     (case st of
        None \<Rightarrow> (None, w)
      | Some a \<Rightarrow> (let (b, w') = deep_copy w a in (Some b, w')))"

text \<open>What a state reference denotes in a world: the content of the object, if any.\<close>

definition state_value :: "'v world \<Rightarrow> addr option \<Rightarrow> 'v option" where
  "state_value w st = (case st of None \<Rightarrow> None | Some a \<Rightarrow> Some (heap w ! a))"

text \<open>\<open>End\<close>, node instances and what a node's \<open>run\<close> gives back (nodes.py).
  A node instance knows its class, prints as \<open>node_str\<close>, and its \<open>run\<close> works on the
  world through the reference to the live state; it returns a node, an \<open>End\<close> or,
  against its annotation, a value of another type (kept as that type's name), or it
  raises.\<close>

datatype 'r end_marker = End (data: 'r)

datatype ('v, 'r) base_node =
    BaseNode (inst_cls: py_class) (node_str: string)
      (run_node: "'v world \<Rightarrow> addr option \<Rightarrow> 'v world \<times> (error + ('v, 'r) node_return)")
and ('v, 'r) node_return =
    RetNode "('v, 'r) base_node"
  | RetEnd "'r end_marker"
  | RetOther string

text \<open>
  The three history records. \<open>NodeEvent\<close> in graph.py is the step record, declared as
  \<open>NextNodeEvent\<close> in state.py.
\<close>

datatype ('v, 'r, 'i) history_step =
    NodeEvent (state: "addr option") (ev_node: "('v, 'r) base_node") (start_ts: int)
      (duration: "int option")
  | InterruptEvent (state: "addr option") (interrupt: 'i) (ts: int)
  | EndEvent (state: "addr option") (result: "'r end_marker") (ts: int)

text \<open>
  Creating a record: the dataclass \<open>__init__\<close> reads the clock for the time stamp and
  \<open>__post_init__\<close> replaces the state by its deep copy.
\<close>

definition new_NodeEvent ::
  "'v world \<Rightarrow> addr option \<Rightarrow> ('v, 'r) base_node \<Rightarrow> ('v, 'r, 'i) history_step \<times> 'v world" where
  "new_NodeEvent w st n =
     (let (t, w1) = now_utc w; (snap, w2) = deep_copy_state w1 st
      in (NodeEvent snap n t None, w2))"

definition new_InterruptEvent ::
  "'v world \<Rightarrow> addr option \<Rightarrow> 'i \<Rightarrow> ('v, 'r, 'i) history_step \<times> 'v world" where
  "new_InterruptEvent w st i =
     (let (t, w1) = now_utc w; (snap, w2) = deep_copy_state w1 st
      in (InterruptEvent snap i t, w2))"

definition new_EndEvent ::
  "'v world \<Rightarrow> addr option \<Rightarrow> 'r end_marker \<Rightarrow> ('v, 'r, 'i) history_step \<times> 'v world" where
  "new_EndEvent w st e =
     (let (t, w1) = now_utc w; (snap, w2) = deep_copy_state w1 st
      in (EndEvent snap e t, w2))"

text \<open>\<open>history_step.duration = d\<close>\<close>

fun set_duration :: "('v, 'r, 'i) history_step \<Rightarrow> int \<Rightarrow> ('v, 'r, 'i) history_step" where
  "set_duration (NodeEvent s n t _) d = NodeEvent s n t (Some d)"
| "set_duration ev d = ev"

section \<open>graph.py: the execution engine\<close>

definition not_in_graph_msg :: "('v, 'r) base_node \<Rightarrow> string" where
  "not_in_graph_msg n = ''Node `'' @ node_str n @ ''` is not in the graph.''"

text \<open>
  \<open>Graph.next\<close>. The caller's \<open>history\<close> list is mutated in place, so it is returned
  whether or not the call raises. The step record is the object just appended, at index
  \<open>length history\<close>; the node's computation cannot reach the list.
\<close>

definition graph_next ::
  "graph \<Rightarrow> 'v world \<Rightarrow> addr option \<Rightarrow> ('v, 'r) base_node \<Rightarrow> ('v, 'r, 'i) history_step list
     \<Rightarrow> 'v world \<times> ('v, 'r, 'i) history_step list \<times> (error + ('v, 'r) node_return)" where
  "graph_next g w st n history =
     (if get_id (inst_cls n) \<notin> set (dict_keys (node_defs g))
      then (w, history, Inl (GraphRuntimeError (not_in_graph_msg n)))
      else
        let (history_step, w1) = new_NodeEvent w st n;
            history1 = history @ [history_step];
            (start, w2) = perf_counter w1;
            (w3, r) = run_node n w2 st
        in case r of
             Inl err \<Rightarrow> (w3, history1, Inl err)
           | Inr next_node \<Rightarrow>
               (let (fin, w4) = perf_counter w3
                in (w4, history1[length history := set_duration history_step (fin - start)],
                    Inr next_node)))"

definition invalid_return_msg :: "string \<Rightarrow> string" where
  "invalid_return_msg tn =
     ''Invalid node return type: `'' @ tn @ ''`. Expected `BaseNode` or `End`.''"

text \<open>
  The \<open>while True\<close> loop of \<open>Graph.run\<close>. It may run forever: the result is \<open>None\<close>
  then. When the loop raises, the local history is lost with it.
\<close>

partial_function (option) run_loop ::
  "graph \<Rightarrow> 'v world \<Rightarrow> addr option \<Rightarrow> ('v, 'r) base_node \<Rightarrow> ('v, 'r, 'i) history_step list
     \<Rightarrow> ('v world \<times> (error + 'r \<times> ('v, 'r, 'i) history_step list)) option" where
  "run_loop g w st start_node history =
     (case graph_next g w st start_node history of
        (w1, history1, Inl err) \<Rightarrow> Some (w1, Inl err)
      | (w1, history1, Inr (RetEnd e)) \<Rightarrow>
          (let (ev, w2) = new_EndEvent w1 st e
           in Some (w2, Inr (data e, history1 @ [ev])))
      | (w1, history1, Inr (RetNode next_node)) \<Rightarrow> run_loop g w1 st next_node history1
      | (w1, history1, Inr (RetOther tn)) \<Rightarrow>
          Some (w1, Inl (GraphRuntimeError (invalid_return_msg tn))))"

definition graph_run ::
  "graph \<Rightarrow> 'v world \<Rightarrow> addr option \<Rightarrow> ('v, 'r) base_node
     \<Rightarrow> ('v world \<times> (error + 'r \<times> ('v, 'r, 'i) history_step list)) option" where
  "graph_run g w st start_node = run_loop g w st start_node []"

text \<open>The \<open>kind\<close> field of a history record.\<close>

fun kind :: "('v, 'r, 'i) history_step \<Rightarrow> string" where
  "kind (NodeEvent _ _ _ _) = ''step''"
| "kind (InterruptEvent _ _ _) = ''interrupt''"
| "kind (EndEvent _ _ _) = ''end''"

text \<open>
  The first \<open>k + 1\<close> iterations of the loop of \<open>Graph.run\<close>, unrolled: \<open>nth_next k\<close> is
  what the call of \<open>next\<close> number \<open>k + 1\<close> gives, when each of the \<open>k\<close> calls before it
  returned a node; it is \<open>None\<close> when the loop has left before.
\<close>

fun nth_next ::
  "nat \<Rightarrow> graph \<Rightarrow> 'v world \<Rightarrow> addr option \<Rightarrow> ('v, 'r) base_node \<Rightarrow> ('v, 'r, 'i) history_step list
     \<Rightarrow> ('v world \<times> ('v, 'r, 'i) history_step list \<times> (error + ('v, 'r) node_return)) option" where
  "nth_next 0 g w st n history = Some (graph_next g w st n history)"
| "nth_next (Suc k) g w st n history =
     (case graph_next g w st n history of
        (w1, history1, Inr (RetNode next_node)) \<Rightarrow> nth_next k g w1 st next_node history1
      | _ \<Rightarrow> None)"

text \<open>A reference held by the program points into the store.\<close>

definition live :: "'v world \<Rightarrow> addr option \<Rightarrow> bool" where
  "live w st = (case st of None \<Rightarrow> True | Some a \<Rightarrow> a < length (heap w))"

section \<open>retrievers.py\<close>

text \<open>Validated arguments are JSON-like values.\<close>

datatype pyval =
    PStr string
  | PInt int
  | PList "pyval list"
  | PDict "(string \<times> pyval) list"

text \<open>\<open>CallInfo\<close>; its field \<open>context\<close> is \<open>info_context\<close>.\<close>

record 'c call_info =
  info_context :: 'c
  retry :: int

datatype 'c arg = ArgInfo "'c call_info" | ArgVal pyval

record function_call =
  function_id :: string
  function_name :: string
  arguments :: string

datatype message =
    FunctionValidationError string string "string list"
  | FunctionResponse string string string

text \<open>
  The \<open>Retriever\<close> dataclass. \<open>validator\<close> is \<open>validator.validate_json\<close>, giving the
  errors of a \<open>ValidationError\<close> or the dictionary of arguments; \<open>function\<close>
  (here \<open>retriever_function\<close>) takes the
  positional and the keyword arguments and returns the content or raises. The field
  \<open>_current_retry\<close> is \<open>current_retry\<close>, \<open>name\<close> is \<open>retriever_name\<close>.
\<close>

record 'c retriever =
  retriever_name :: string
  description :: string
  retriever_function :: "'c arg list \<Rightarrow> (string \<times> pyval) list \<Rightarrow> error + string"
  is_async :: bool
  takes_info :: bool
  single_arg_name :: "string option"
  positional_fields :: "string list"
  var_positional_field :: "string option"
  validator :: "string \<Rightarrow> string list + (string \<times> pyval) list"
  json_schema :: pyval
  max_retries :: int
  current_retry :: int

text \<open>\<open>Retriever.reset\<close>\<close>

definition reset :: "'c retriever \<Rightarrow> 'c retriever" where
  "reset r = r\<lparr>current_retry := 0\<rparr>"

text \<open>\<open>d.pop(k)\<close>: the value and the dictionary without the key, or \<open>KeyError\<close>.\<close>

definition dict_pop :: "(string \<times> pyval) list \<Rightarrow> string \<Rightarrow> error + (pyval \<times> (string \<times> pyval) list)" where
  "dict_pop d k =
     (case dict_get d k of
        None \<Rightarrow> Inl (KeyError k)
      | Some v \<Rightarrow> Inr (v, filter (\<lambda>p. fst p \<noteq> k) d))"

text \<open>The loop \<open>for positional_field in self.positional_fields: args.append(args_dict.pop(...))\<close>.\<close>

fun pop_positional ::
  "string list \<Rightarrow> 'c arg list \<Rightarrow> (string \<times> pyval) list
     \<Rightarrow> error + ('c arg list \<times> (string \<times> pyval) list)" where
  "pop_positional [] args d = Inr (args, d)"
| "pop_positional (f # fs) args d =
     (case dict_pop d f of
        Inl err \<Rightarrow> Inl err
      | Inr (v, d') \<Rightarrow> pop_positional fs (args @ [ArgVal v]) d')"

text \<open>What \<open>args.extend(v)\<close> appends: the items of a list, the keys of a dictionary, the
  characters of a string; an integer is not iterable.\<close>

fun iterate :: "pyval \<Rightarrow> error + pyval list" where
  "iterate (PList xs) = Inr xs"
| "iterate (PDict d) = Inr (map (\<lambda>p. PStr (fst p)) d)"
| "iterate (PStr s) = Inr (map (\<lambda>c. PStr [c]) s)"
| "iterate (PInt i) = Inl (TypeError ''int object is not iterable'')"

text \<open>\<open>Retriever._call_args\<close>\<close>

definition call_args ::
  "'c retriever \<Rightarrow> 'c \<Rightarrow> (string \<times> pyval) list \<Rightarrow> error + ('c arg list \<times> (string \<times> pyval) list)" where
  "call_args r ctx args_dict =
     (let d = (if truthy (single_arg_name r) then [(the (single_arg_name r), PDict args_dict)]
               else args_dict);
          args = (if takes_info r then [ArgInfo \<lparr>info_context = ctx, retry = current_retry r\<rparr>] else [])
      in case pop_positional (positional_fields r) args d of
           Inl err \<Rightarrow> Inl err
         | Inr (args1, d1) \<Rightarrow>
             if truthy (var_positional_field r)
             then (case dict_pop d1 (the (var_positional_field r)) of
                     Inl err \<Rightarrow> Inl err
                   | Inr (v, d2) \<Rightarrow>
                       (case iterate v of
                          Inl err \<Rightarrow> Inl err
                        | Inr vs \<Rightarrow> Inr (args1 @ map ArgVal vs, d2)))
             else Inr (args1, d1))"

text \<open>
  \<open>Retriever.run\<close>: the retriever after the call, and the message returned or the
  exception raised. Both branches of \<open>is_async\<close> call the function with the same
  arguments.
\<close>

definition retriever_run ::
  "'c retriever \<Rightarrow> 'c \<Rightarrow> function_call \<Rightarrow> 'c retriever \<times> (error + message)" where
  "retriever_run r ctx m =
     (case validator r (arguments m) of
        Inl errs \<Rightarrow>
          (let r1 = r\<lparr>current_retry := current_retry r + 1\<rparr>
           in if current_retry r1 > max_retries r1
              then (r1, Inl (ValidationError errs))
              else (r1, Inr (FunctionValidationError (function_id m) (function_name m) errs)))
      | Inr args_dict \<Rightarrow>
          (case call_args r ctx args_dict of
             Inl err \<Rightarrow> (r, Inl err)
           | Inr (args, kwargs) \<Rightarrow>
               (case retriever_function r args kwargs of
                  Inl err \<Rightarrow> (r, Inl err)
                | Inr response_content \<Rightarrow>
                    (r\<lparr>current_retry := 0\<rparr>,
                     Inr (FunctionResponse (function_id m) (function_name m) response_content)))))"

text \<open>A caller running one call after the other on the same retriever, whatever each
  call gives.\<close>

fun run_calls ::
  "'c retriever \<Rightarrow> 'c \<Rightarrow> function_call list \<Rightarrow> 'c retriever \<times> (error + message) list" where
  "run_calls r ctx [] = (r, [])"
| "run_calls r ctx (m # ms) =
     (let (r1, out) = retriever_run r ctx m;
          (r2, outs) = run_calls r1 ctx ms
      in (r2, out # outs))"

definition raised :: "error + 'a \<Rightarrow> bool" where
  "raised x = (case x of Inl _ \<Rightarrow> True | Inr _ \<Rightarrow> False)"

definition fails_validation :: "'c retriever \<Rightarrow> function_call \<Rightarrow> bool" where
  "fails_validation r m = (case validator r (arguments m) of Inl _ \<Rightarrow> True | Inr _ \<Rightarrow> False)"

text \<open>The call validates and the function returns.\<close>

definition succeeds :: "'c retriever \<Rightarrow> 'c \<Rightarrow> function_call \<Rightarrow> bool" where
  "succeeds r ctx m =
     (case validator r (arguments m) of
        Inl _ \<Rightarrow> False
      | Inr args_dict \<Rightarrow>
          (case call_args r ctx args_dict of
             Inl _ \<Rightarrow> False
           | Inr (args, kwargs) \<Rightarrow> \<not> raised (retriever_function r args kwargs)))"

section \<open>The references that validation reports\<close>

text \<open>
  What \<open>_validate_edges\<close> is to collect, said directly: the successor identities that
  are declared by some node and not registered, each once, in the order in which the
  loops meet them, and for each of them the referencing nodes, quoted, in that order.
\<close>

definition first_occurrences :: "'a list \<Rightarrow> 'a list" where
  "first_occurrences xs = rev (remdups (rev xs))"

definition declared_refs :: "(string \<times> node_def) list \<Rightarrow> (string \<times> string) list" where
  "declared_refs defs =
     concat (map (\<lambda>(i, d). map (\<lambda>e. (e, ''`'' @ i @ ''`'')) (dict_keys (next_node_edges d))) defs)"

definition missing_ids :: "(string \<times> node_def) list \<Rightarrow> string list" where
  "missing_ids defs =
     first_occurrences (filter (\<lambda>e. e \<notin> set (dict_keys defs)) (map fst (declared_refs defs)))"

definition referenced_by :: "(string \<times> node_def) list \<Rightarrow> string \<Rightarrow> string list" where
  "referenced_by defs k = map snd (filter (\<lambda>p. fst p = k) (declared_refs defs))"

text \<open>
  One step of the two loops of \<open>_validate_edges\<close> taken together, and the grouping
  they compute.
\<close>

definition append_ref ::
  "(string \<times> string list) list \<Rightarrow> string \<times> string \<Rightarrow> (string \<times> string list) list" where
  "append_ref bad p = setdefault_append bad (fst p) (snd p)"

definition grouped :: "(string \<times> string) list \<Rightarrow> (string \<times> string list) list" where
  "grouped ps =
     map (\<lambda>k. (k, map snd (filter (\<lambda>p. fst p = k) ps))) (first_occurrences (map fst ps))"

section \<open>Example graphs, nodes and worlds\<close>

text \<open>
  The graph of two node types \<open>A\<close> (successor \<open>B\<close>) and \<open>B\<close> (terminal only), node
  instances whose computations leave the world as it is, and a world with one state
  object. \<open>comma_and_join\<close> stands in for \<open>_utils.comma_and\<close> where an example needs
  a concrete function.
\<close>

definition comma_and_join :: "string list \<Rightarrow> string" where
  "comma_and_join xs = join '', '' xs"

definition class_A :: py_class where
  "class_A = \<lparr>cls_name = ''A'', cls_node_id = None, cls_repr = ''A''\<rparr>"

definition class_B :: py_class where
  "class_B = \<lparr>cls_name = ''B'', cls_node_id = None, cls_repr = ''B''\<rparr>"

definition class_C :: py_class where
  "class_C = \<lparr>cls_name = ''C'', cls_node_id = None, cls_repr = ''C''\<rparr>"

definition type_A :: node_type where
  "type_A = \<lparr>cls = class_A, return_hint = Some [RtNode class_B None], doc = None\<rparr>"

definition type_B :: node_type where
  "type_B = \<lparr>cls = class_B, return_hint = Some [RtEnd None], doc = None\<rparr>"

definition graph_AB :: graph where
  "graph_AB = \<lparr>name = None, node_defs =
     [(''A'', \<lparr>node = type_A, node_id = ''A'', node_note = None,
               next_node_edges = [(''B'', \<lparr>label = None\<rparr>)], end_edge = None,
               returns_base_node = False\<rparr>),
      (''B'', \<lparr>node = type_B, node_id = ''B'', node_note = None,
               next_node_edges = [], end_edge = Some \<lparr>label = None\<rparr>,
               returns_base_node = False\<rparr>)]\<rparr>"

definition inst_B :: "('v, int) base_node" where
  "inst_B = BaseNode class_B ''B()'' (\<lambda>w st. (w, Inr (RetEnd (End 42))))"

definition inst_A :: "('v, int) base_node" where
  "inst_A = BaseNode class_A ''A()'' (\<lambda>w st. (w, Inr (RetNode inst_B)))"

definition inst_A_raising :: "('v, int) base_node" where
  "inst_A_raising = BaseNode class_A ''A()'' (\<lambda>w st. (w, Inl (OtherError ''ValueError'')))"

definition inst_C :: "('v, int) base_node" where
  "inst_C = BaseNode class_C ''C()'' (\<lambda>w st. (w, Inr (RetEnd (End 0))))"

definition world0 :: "int world" where
  "world0 = \<lparr>heap = [7], ticks = 0, utc_clock = (\<lambda>k. 1000 + int k), perf_clock = (\<lambda>k. 10 * int k)\<rparr>"

definition history_of ::
  "('v world \<times> (error + 'r \<times> ('v, 'r, 'i) history_step list)) option \<Rightarrow> ('v, 'r, 'i) history_step list" where
  "history_of out = (case out of Some (_, Inr (_, h)) \<Rightarrow> h | _ \<Rightarrow> [])"

definition result_of ::
  "('v world \<times> (error + 'r \<times> ('v, 'r, 'i) history_step list)) option \<Rightarrow> 'r option" where
  "result_of out = (case out of Some (_, Inr (r, _)) \<Rightarrow> Some r | _ \<Rightarrow> None)"


text \<open>More node types: a wildcard node that also names \<open>Z\<close>; \<open>A\<close> naming
  \<open>Z\<close>; \<open>A\<close> with an invalid return annotation; a second class with identity \<open>A\<close>.\<close>

definition class_Z :: py_class where
  "class_Z = \<lparr>cls_name = ''Z'', cls_node_id = None, cls_repr = ''Z''\<rparr>"

definition class_W :: py_class where
  "class_W = \<lparr>cls_name = ''W'', cls_node_id = None, cls_repr = ''W''\<rparr>"

definition class_A2 :: py_class where
  "class_A2 = \<lparr>cls_name = ''A2'', cls_node_id = Some ''A'', cls_repr = ''A2''\<rparr>"

definition type_W :: node_type where
  "type_W = \<lparr>cls = class_W, return_hint = Some [RtBaseNode, RtNode class_Z None], doc = None\<rparr>"



definition type_A_bad :: node_type where
  "type_A_bad = \<lparr>cls = class_A, return_hint = Some [RtOther ''int''], doc = None\<rparr>"

definition type_A2 :: node_type where
  "type_A2 = \<lparr>cls = class_A2, return_hint = Some [RtEnd None], doc = None\<rparr>"


text \<open>The node definitions registered from \<open>[W, B]\<close>, where \<open>W\<close> declares the wildcard and
  names \<open>Z\<close>.\<close>

definition defs_W_B :: "(string \<times> node_def) list" where
  "defs_W_B =
     [(''W'', \<lparr>node = type_W, node_id = ''W'', node_note = None,
               next_node_edges = [(''Z'', \<lparr>label = None\<rparr>)], end_edge = None,
               returns_base_node = True\<rparr>),
      (''B'', \<lparr>node = type_B, node_id = ''B'', node_note = None,
               next_node_edges = [], end_edge = Some \<lparr>label = None\<rparr>,
               returns_base_node = False\<rparr>)]"

text \<open>A retriever with one positional field and at most one retry, a call whose
  arguments validate and a call whose arguments do not.\<close>

definition retriever_ex :: "unit retriever" where
  "retriever_ex =
     \<lparr>retriever_name = ''lookup'', description = ''look a value up'',
      retriever_function = (\<lambda>args kwargs. Inr ''found''),
      is_async = False, takes_info = True, single_arg_name = None,
      positional_fields = [''key''], var_positional_field = None,
      validator = (\<lambda>s. if s = ''ok'' then Inr [(''key'', PStr ''k'')] else Inl [''invalid'']),
      json_schema = PDict [], max_retries = 1, current_retry = 0\<rparr>"

definition ok_call :: function_call where
  "ok_call = \<lparr>function_id = ''1'', function_name = ''lookup'', arguments = ''ok''\<rparr>"

definition bad_call :: function_call where
  "bad_call = \<lparr>function_id = ''2'', function_name = ''lookup'', arguments = ''{''\<rparr>"

section \<open>The engine: one call of next, and the loop\<close>

lemma graph_next_unregistered:
  "get_id (inst_cls n) \<notin> set (dict_keys (node_defs g))
     \<Longrightarrow> graph_next g w st n h = (w, h, Inl (GraphRuntimeError (not_in_graph_msg n)))"
  by (simp add: graph_next_def)

lemma graph_next_raise:
  assumes "get_id (inst_cls n) \<in> set (dict_keys (node_defs g))"
    and "new_NodeEvent w st n = (ev0, w1)"
    and "run_node n (snd (perf_counter w1)) st = (w3, Inl err)"
  shows "graph_next g w st n h = (w3, h @ [ev0], Inl err)"
  using assms by (simp add: graph_next_def case_prod_beta Let_def)

lemma graph_next_return:
  assumes "get_id (inst_cls n) \<in> set (dict_keys (node_defs g))"
    and "new_NodeEvent w st n = (ev0, w1)"
    and "run_node n (snd (perf_counter w1)) st = (w3, Inr r)"
  shows "graph_next g w st n h =
           (snd (perf_counter w3),
            h @ [set_duration ev0 (fst (perf_counter w3) - fst (perf_counter w1))], Inr r)"
  using assms by (simp add: graph_next_def case_prod_beta Let_def)

lemma new_NodeEvent_shape:
  "new_NodeEvent w st n = (ev0, w1)
     \<Longrightarrow> ev0 = NodeEvent (fst (deep_copy_state (snd (now_utc w)) st)) n (utc_clock w (ticks w)) None"
  by (auto simp: new_NodeEvent_def now_utc_def split: prod.splits)

lemma graph_next_Inr_shape:
  fixes h :: "('v, 'r, 'i) history_step list"
  assumes "graph_next g w st n h = (w', h', Inr r)"
  shows "\<exists>ev. h' = h @ [ev] \<and> kind ev = ''step''"
proof (cases "get_id (inst_cls n) \<in> set (dict_keys (node_defs g))")
  case False
  with assms show ?thesis by (simp add: graph_next_unregistered)
next
  case True
  obtain ev0 :: "('v, 'r, 'i) history_step" and w1 where ev: "new_NodeEvent w st n = (ev0, w1)"
    by (cases "new_NodeEvent w st n :: ('v, 'r, 'i) history_step \<times> 'v world")
  obtain w3 res where run: "run_node n (snd (perf_counter w1)) st = (w3, res)" by force
  from new_NodeEvent_shape[OF ev] obtain s t where ev0: "ev0 = NodeEvent s n t None" by blast
  show ?thesis
  proof (cases res)
    case (Inl err)
    with assms graph_next_raise[OF True ev run[unfolded Inl], of h] show ?thesis by simp
  next
    case (Inr r')
    with assms graph_next_return[OF True ev run[unfolded Inr], of h] show ?thesis
      by (auto simp: ev0)
  qed
qed

lemma run_loop_reaches_end:
  fixes h :: "('v, 'r, 'i) history_step list"
  assumes "nth_next k g w st n h = Some (w', h', Inr (RetEnd e))"
    and "new_EndEvent w' st e = (ev, w'')"
  shows "run_loop g w st n h = Some (w'', Inr (data e, h' @ [ev]))
         \<and> length h' = length h + Suc k
         \<and> take (length h) h' = h
         \<and> (\<forall>x \<in> set (drop (length h) h'). kind x = ''step'')"
  using assms(1)
proof (induction k arbitrary: w n h)
  case 0
  then have nx: "graph_next g w st n h = (w', h', Inr (RetEnd e))" by simp
  from graph_next_Inr_shape[OF nx] obtain x where "h' = h @ [x]" "kind x = ''step''" by blast
  then show ?case
    by (subst run_loop.simps) (simp add: nx assms(2))
next
  case (Suc k)
  obtain w1 h1 r where nx: "graph_next g w st n h = (w1, h1, r)" by (metis prod_cases3)
  with Suc.prems obtain n' where r: "r = Inr (RetNode n')"
    by (auto split: sum.splits node_return.splits)
  from Suc.prems nx r have "nth_next k g w1 st n' h1 = Some (w', h', Inr (RetEnd e))" by simp
  from Suc.IH[OF this] have ih:
    "run_loop g w1 st n' h1 = Some (w'', Inr (data e, h' @ [ev]))"
    "length h' = length h1 + Suc k" "take (length h1) h' = h1"
    "\<forall>x \<in> set (drop (length h1) h'). kind x = ''step''" by auto
  from graph_next_Inr_shape[OF nx[unfolded r]] obtain x where h1: "h1 = h @ [x]" "kind x = ''step''" by blast
  have "run_loop g w st n h = run_loop g w1 st n' h1"
    by (subst run_loop.simps) (simp add: nx r)
  moreover obtain tl where tl: "h' = h1 @ tl" using ih(3) by (metis append_take_drop_id)
  moreover have "take (length h) h' = h" using tl h1 by simp
  moreover have "\<forall>x \<in> set (drop (length h) h'). kind x = ''step''"
    using ih(4) h1 tl by simp
  ultimately show ?case using ih(1,2) h1 by simp
qed


section \<open>The example run\<close>

lemma example_ids:
  "get_id class_A = ''A''" "get_id class_B = ''B''" "get_id class_C = ''C''"
  by (simp_all add: get_id_def class_A_def class_B_def class_C_def)

lemma graph_AB_keys: "dict_keys (node_defs graph_AB) = [''A'', ''B'']"
  by (simp add: graph_AB_def dict_keys_def)

lemma graph_init_AB: "graph_init ca [type_A, type_B] None = Inr graph_AB"
  by (simp add: Let_def graph_init_def register_node_def get_node_def_def example_ids dict_get_def
      validate_edges_def dict_keys_def type_A_def type_B_def graph_AB_def)

lemmas clock_simps = now_utc_def perf_counter_def deep_copy_state_def new_NodeEvent_def
  new_EndEvent_def

lemma next_A:
  "graph_next graph_AB w None inst_A h =
     (w\<lparr>ticks := ticks w + 3\<rparr>,
      h @ [NodeEvent None inst_A (utc_clock w (ticks w))
             (Some (perf_clock w (ticks w + 2) - perf_clock w (ticks w + 1)))],
      Inr (RetNode inst_B))"
  by (simp add: graph_next_def graph_AB_keys example_ids clock_simps inst_A_def eval_nat_numeral)

lemma next_B:
  "graph_next graph_AB w None inst_B h =
     (w\<lparr>ticks := ticks w + 3\<rparr>,
      h @ [NodeEvent None inst_B (utc_clock w (ticks w))
             (Some (perf_clock w (ticks w + 2) - perf_clock w (ticks w + 1)))],
      Inr (RetEnd (End 42)))"
  by (simp add: graph_next_def graph_AB_keys example_ids clock_simps inst_B_def eval_nat_numeral)

lemma run_AB:
  "graph_run graph_AB w None inst_A =
     Some (w\<lparr>ticks := ticks w + 7\<rparr>,
       Inr (42,
         [NodeEvent None inst_A (utc_clock w (ticks w))
            (Some (perf_clock w (ticks w + 2) - perf_clock w (ticks w + 1))),
          NodeEvent None inst_B (utc_clock w (ticks w + 3))
            (Some (perf_clock w (ticks w + 5) - perf_clock w (ticks w + 4))),
          EndEvent None (End 42) (utc_clock w (ticks w + 6))]))"
  unfolding graph_run_def
  apply (subst run_loop.simps, simp add: next_A)
  apply (subst run_loop.simps, simp add: next_B clock_simps)
  apply (simp add: add.commute eval_nat_numeral)
  done


text \<open>
  Claim C1, as the spec states it: running the graph of \<open>A\<close> and \<open>B\<close> from an
  \<open>A\<close>-instance with no state gives a history of exactly two records, the step of
  \<open>A\<close> and the end record. On the code the history has three records: \<open>next\<close>
  appends a step record for \<open>B\<close> as well, before \<open>B\<close>'s computation returns \<open>End(42)\<close>.
\<close>

theorem C1_history_counterexample:
  "map kind (history_of (graph_run graph_AB world0 None inst_A
      :: (int world \<times> (error + int \<times> (int, int, unit) history_step list)) option))
     = [''step'', ''step'', ''end'']
   \<and> length (history_of (graph_run graph_AB world0 None inst_A
      :: (int world \<times> (error + int \<times> (int, int, unit) history_step list)) option)) \<noteq> 2"
  by (simp add: run_AB history_of_def)

text \<open>
  Claim C1, amended: construction from \<open>[A, B]\<close> succeeds, and the run from an
  \<open>A\<close>-instance with no state, in any world, returns 42 and the history
  \<open>[step(A), step(B), end(42)]\<close>: three records, each with an absent state snapshot, the
  steps with their start time stamps and durations, in the order of the clock readings.
\<close>

theorem C1_example_run:
  "graph_init ca [type_A, type_B] None = Inr graph_AB
   \<and> graph_run graph_AB w None inst_A =
       Some (w\<lparr>ticks := ticks w + 7\<rparr>,
         Inr (42,
           [NodeEvent None inst_A (utc_clock w (ticks w))
              (Some (perf_clock w (ticks w + 2) - perf_clock w (ticks w + 1))),
            NodeEvent None inst_B (utc_clock w (ticks w + 3))
              (Some (perf_clock w (ticks w + 5) - perf_clock w (ticks w + 4))),
            EndEvent None (End 42) (utc_clock w (ticks w + 6))]))"
  by (simp add: graph_init_AB run_AB)

text \<open>
  Claim C2: when the call of \<open>next\<close> number \<open>k + 1\<close> of a run returns \<open>End\<close> (the
  \<open>k\<close> calls before it returned nodes, so \<open>k + 1\<close> node computations were executed),
  \<open>run\<close> returns: its result is the value carried by that \<open>End\<close>, its history has
  \<open>k + 1\<close> step records followed by one end record, which is the last element and
  holds that \<open>End\<close>.
\<close>

theorem C2_run_history:
  fixes h' :: "('v, 'r, 'i) history_step list"
  assumes "nth_next k g w st n [] = Some (w', h', Inr (RetEnd e))"
    and "new_EndEvent w' st e = (ev, w'')"
  shows "graph_run g w st n = Some (w'', Inr (data e, h' @ [ev]))
         \<and> length (h' @ [ev]) = Suc k + 1
         \<and> (\<forall>x \<in> set h'. kind x = ''step'')
         \<and> last (h' @ [ev]) = ev \<and> kind ev = ''end'' \<and> result ev = e"
proof -
  from run_loop_reaches_end[OF assms] have
    "run_loop g w st n [] = Some (w'', Inr (data e, h' @ [ev]))"
    "length h' = Suc k" "\<forall>x \<in> set h'. kind x = ''step''" by simp_all
  moreover from assms(2) have "kind ev = ''end''" "result ev = e"
    by (auto simp: new_EndEvent_def split: prod.splits)
  ultimately show ?thesis by (simp add: graph_run_def)
qed

theorem C2_run_history_witness:
  "graph_run graph_AB world0 None inst_A =
     Some (world0\<lparr>ticks := 7\<rparr>,
       Inr (42, [NodeEvent None inst_A 1000 (Some 10), NodeEvent None inst_B 1003 (Some 10),
                 EndEvent None (End 42) 1006 :: (int, int, unit) history_step]))
   \<and> length [NodeEvent None inst_A 1000 (Some 10), NodeEvent None inst_B 1003 (Some 10),
              EndEvent None (End 42) 1006 :: (int, int, unit) history_step] = Suc (Suc 0) + 1"
proof -
  have h1: "nth_next (Suc 0) graph_AB world0 None inst_A [] =
              Some (world0\<lparr>ticks := 6\<rparr>,
                    [NodeEvent None inst_A 1000 (Some 10), NodeEvent None inst_B 1003 (Some 10)
                       :: (int, int, unit) history_step],
                    Inr (RetEnd (End 42)))"
    by (simp add: next_A next_B world0_def)
  have h2: "new_EndEvent (world0\<lparr>ticks := 6\<rparr>) None (End (42::int)) =
              (EndEvent None (End 42) 1006 :: (int, int, unit) history_step, world0\<lparr>ticks := 7\<rparr>)"
    by (simp add: clock_simps world0_def)
  show ?thesis using C2_run_history[OF h1 h2] by simp
qed

section \<open>Snapshots and step records\<close>

lemma deep_copy_state_Some:
  "deep_copy_state w (Some a) = (Some (length (heap w)), w\<lparr>heap := heap w @ [heap w ! a]\<rparr>)"
  by (simp add: deep_copy_state_def deep_copy_def)


lemma state_value_ticks [simp]: "state_value (w\<lparr>ticks := k\<rparr>) s = state_value w s"
  by (simp add: state_value_def split: option.splits)

lemma live_ticks [simp]: "live (w\<lparr>ticks := k\<rparr>) s = live w s"
  by (simp add: live_def split: option.splits)

lemma new_NodeEvent_eq:
  "deep_copy_state (snd (now_utc w)) st = (snap, w1)
     \<Longrightarrow> new_NodeEvent w st n = (NodeEvent snap n (fst (now_utc w)) None, w1)"
  by (simp add: new_NodeEvent_def case_prod_beta)

lemma world0_sel [simp]:
  "heap world0 = [7]" "ticks world0 = 0" "utc_clock world0 k = 1000 + int k"
  "perf_clock world0 k = 10 * int k"
  by (simp_all add: world0_def)




text \<open>
  Claim C9: when the computation of a registered node raises, \<open>next\<close> raises the same
  exception and the history is the old one followed by the step record, whose duration
  is still unset; when the node is not registered, \<open>next\<close> raises the runtime error and
  leaves history and world as they were.
\<close>

theorem C9_failed_calls:
  fixes h :: "('v, 'r, 'i) history_step list" and h' :: "('v, 'r, 'i) history_step list"
  shows
  "(get_id (inst_cls n) \<in> set (dict_keys (node_defs g))
      \<and> deep_copy_state (snd (now_utc w)) st = (snap, w1)
      \<and> run_node n (snd (perf_counter w1)) st = (w3, Inl err)
     \<longrightarrow> graph_next g w st n h =
           (w3, h @ [NodeEvent snap n (utc_clock w (ticks w)) None], Inl err))
   \<and> (get_id (inst_cls n') \<notin> set (dict_keys (node_defs g'))
     \<longrightarrow> graph_next g' w' st' n' h' =
           (w', h', Inl (GraphRuntimeError (''Node `'' @ node_str n' @ ''` is not in the graph.''))))"
proof (intro conjI impI)
  assume a: "get_id (inst_cls n) \<in> set (dict_keys (node_defs g))
      \<and> deep_copy_state (snd (now_utc w)) st = (snap, w1)
      \<and> run_node n (snd (perf_counter w1)) st = (w3, Inl err)"
  have ev: "new_NodeEvent w st n
              = (NodeEvent snap n (utc_clock w (ticks w)) None :: ('v, 'r, 'i) history_step, w1)"
    using new_NodeEvent_eq[of w st snap w1] a by (simp add: now_utc_def)
  from a graph_next_raise[OF _ ev, of g w3 err h]
  show "graph_next g w st n h = (w3, h @ [NodeEvent snap n (utc_clock w (ticks w)) None], Inl err)"
    by simp
next
  assume "get_id (inst_cls n') \<notin> set (dict_keys (node_defs g'))"
  then show "graph_next g' w' st' n' h' =
           (w', h', Inl (GraphRuntimeError (''Node `'' @ node_str n' @ ''` is not in the graph.'')))"
    by (simp add: graph_next_unregistered not_in_graph_msg_def)
qed

theorem C9_failed_calls_witness:
  "graph_next graph_AB world0 (Some 0) inst_A_raising ([] :: (int, int, unit) history_step list)
     = (world0\<lparr>heap := [7, 7], ticks := 2\<rparr>, [NodeEvent (Some 1) inst_A_raising 1000 None],
        Inl (OtherError ''ValueError''))
   \<and> graph_next graph_AB world0 (Some 0) inst_C ([] :: (int, int, unit) history_step list)
     = (world0, [], Inl (GraphRuntimeError ''Node `C()` is not in the graph.''))"
proof -
  have h1: "get_id (inst_cls (inst_A_raising :: (int, int) base_node))
              \<in> set (dict_keys (node_defs graph_AB))"
    by (simp add: inst_A_raising_def example_ids graph_AB_keys)
  have h3: "deep_copy_state (snd (now_utc world0)) (Some 0)
              = (Some 1, world0\<lparr>heap := [7, 7], ticks := 1\<rparr>)"
    by (simp add: deep_copy_state_Some now_utc_def world0_def)
  have h4: "run_node inst_A_raising (snd (perf_counter (world0\<lparr>heap := [7, 7], ticks := 1\<rparr>))) (Some 0)
              = (world0\<lparr>heap := [7, 7], ticks := 2\<rparr>, Inl (OtherError ''ValueError'') :: error + (int, int) node_return)"
    by (simp add: inst_A_raising_def perf_counter_def world0_def)
  have h5: "get_id (inst_cls (inst_C :: (int, int) base_node))
              \<notin> set (dict_keys (node_defs graph_AB))"
    by (simp add: inst_C_def example_ids graph_AB_keys)
  show ?thesis
    using C9_failed_calls[of inst_A_raising graph_AB world0 "Some 0" "Some 1"
        "world0\<lparr>heap := [7, 7], ticks := 1\<rparr>" "world0\<lparr>heap := [7, 7], ticks := 2\<rparr>"
        "OtherError ''ValueError''" "[] :: (int, int, unit) history_step list"
        inst_C graph_AB world0 "Some 0" "[] :: (int, int, unit) history_step list"]
      h1 h3 h4 h5
    by (simp add: inst_C_def)
qed

text \<open>
  Claim C8, as the spec states it: every call of \<open>next\<close> returns a node or an \<open>End\<close>,
  and fails with a runtime error exactly when the node is not registered. A registered
  node whose computation raises makes \<open>next\<close> raise that exception: no node or \<open>End\<close>
  is returned, and the error is not the runtime error of an unregistered node.
\<close>

theorem C8_next_counterexample:
  "get_id (inst_cls (inst_A_raising :: (int, int) base_node)) \<in> set (dict_keys (node_defs graph_AB))
   \<and> snd (snd (graph_next graph_AB world0 None inst_A_raising
                  ([] :: (int, int, unit) history_step list)))
       = Inl (OtherError ''ValueError'')"
  by (simp add: graph_next_def graph_AB_keys example_ids clock_simps inst_A_raising_def)

text \<open>
  Claim C8, amended: when the node's identity is not registered, \<open>next\<close> fails with the
  runtime error naming the node, before anything else happens; when it is registered,
  the outcome of \<open>next\<close> is the outcome of the node's computation, unchanged: the value
  it returns (a node or an \<open>End\<close> when the computation keeps its annotation), or the
  exception it raises.
\<close>

theorem C8_next_result:
  fixes h :: "('v, 'r, 'i) history_step list" and h' :: "('v, 'r, 'i) history_step list"
  shows
  "(get_id (inst_cls n') \<notin> set (dict_keys (node_defs g'))
     \<longrightarrow> graph_next g' w' st' n' h' =
           (w', h', Inl (GraphRuntimeError (''Node `'' @ node_str n' @ ''` is not in the graph.''))))
   \<and> (get_id (inst_cls n) \<in> set (dict_keys (node_defs g))
     \<longrightarrow> snd (snd (graph_next g w st n h))
         = snd (run_node n (snd (perf_counter (snd (deep_copy_state (snd (now_utc w)) st)))) st))"
  by (simp add: graph_next_def not_in_graph_msg_def new_NodeEvent_def case_prod_beta Let_def
      split: sum.splits)

theorem C8_next_result_witness:
  "graph_next graph_AB world0 (Some 0) inst_C ([] :: (int, int, unit) history_step list)
     = (world0, [], Inl (GraphRuntimeError ''Node `C()` is not in the graph.''))
   \<and> snd (snd (graph_next graph_AB world0 None inst_A ([] :: (int, int, unit) history_step list)))
     = Inr (RetNode inst_B)"
proof -
  have h1: "get_id (inst_cls (inst_A :: (int, int) base_node))
              \<in> set (dict_keys (node_defs graph_AB))"
    by (simp add: inst_A_def example_ids graph_AB_keys)
  have h5: "get_id (inst_cls (inst_C :: (int, int) base_node))
              \<notin> set (dict_keys (node_defs graph_AB))"
    by (simp add: inst_C_def example_ids graph_AB_keys)
  show ?thesis
    using C8_next_result[of inst_C graph_AB world0 "Some 0"
        "[] :: (int, int, unit) history_step list" inst_A graph_AB world0 None
        "[] :: (int, int, unit) history_step list"] h1 h5
    by (simp add: inst_C_def inst_A_def)
qed

text \<open>
  Claim C3: for a state object at address \<open>a\<close> and a step, interrupt or end record
  created while it is the live state, the snapshot stored in the record has the content
  of the state at creation, and assigning to the state object afterwards, in any later
  world, leaves the content of the snapshot as it is in that world.
\<close>

theorem C3_snapshot_isolation:
  fixes ev1 :: "('v, 'r, 'i) history_step" and ev2 :: "('v, 'r, 'i) history_step"
    and ev3 :: "('v, 'r, 'i) history_step"
  assumes "a < length (heap w)"
  shows "(new_NodeEvent w (Some a) n = (ev1, w1)
            \<longrightarrow> state_value w1 (state ev1) = Some (heap w ! a)
              \<and> (\<forall>w' v. state_value (mutate w' a v) (state ev1) = state_value w' (state ev1)))
       \<and> (new_InterruptEvent w (Some a) i = (ev2, w2)
            \<longrightarrow> state_value w2 (state ev2) = Some (heap w ! a)
              \<and> (\<forall>w' v. state_value (mutate w' a v) (state ev2) = state_value w' (state ev2)))
       \<and> (new_EndEvent w (Some a) e = (ev3, w3)
            \<longrightarrow> state_value w3 (state ev3) = Some (heap w ! a)
              \<and> (\<forall>w' v. state_value (mutate w' a v) (state ev3) = state_value w' (state ev3)))"
  using assms
  by (auto simp: new_NodeEvent_def new_InterruptEvent_def new_EndEvent_def deep_copy_state_Some
      now_utc_def state_value_def mutate_def)


theorem C3_snapshot_isolation_witness:
  "0 < length (heap world0)
   \<and> state_value (world0\<lparr>heap := [7, 7], ticks := 1\<rparr>) (Some 1) = Some 7
   \<and> state_value (mutate (world0\<lparr>heap := [7, 7], ticks := 1\<rparr>) 0 8) (Some 1) = Some 7"
proof -
  have h0: "0 < length (heap world0)" by simp
  have h1: "new_NodeEvent world0 (Some 0) inst_A
              = (NodeEvent (Some 1) inst_A 1000 None :: (int, int, unit) history_step,
                 world0\<lparr>heap := [7, 7], ticks := 1\<rparr>)"
    by (simp add: new_NodeEvent_def deep_copy_state_Some now_utc_def world0_def)
  have h2: "new_InterruptEvent world0 (Some 0) ()
              = (InterruptEvent (Some 1) () 1000 :: (int, int, unit) history_step,
                 world0\<lparr>heap := [7, 7], ticks := 1\<rparr>)"
    by (simp add: new_InterruptEvent_def deep_copy_state_Some now_utc_def world0_def)
  have h3: "new_EndEvent world0 (Some 0) (End 42)
              = (EndEvent (Some 1) (End 42) 1000 :: (int, int, unit) history_step,
                 world0\<lparr>heap := [7, 7], ticks := 1\<rparr>)"
    by (simp add: new_EndEvent_def deep_copy_state_Some now_utc_def world0_def)
  show ?thesis
    using h0 h1 h2 h3 C3_snapshot_isolation[OF h0, of inst_A
      "NodeEvent (Some 1) inst_A 1000 None :: (int, int, unit) history_step"
      "world0\<lparr>heap := [7, 7], ticks := 1\<rparr>" "()"
      "InterruptEvent (Some 1) () 1000" "world0\<lparr>heap := [7, 7], ticks := 1\<rparr>" "End 42"
      "EndEvent (Some 1) (End 42) 1000" "world0\<lparr>heap := [7, 7], ticks := 1\<rparr>"]
    by (simp add: state_value_def mutate_def world0_def)
qed

section \<open>Dictionaries\<close>

lemma dict_set_new: "k \<notin> fst ` set d \<Longrightarrow> dict_set d k v = d @ [(k, v)]"
  by (induction d) auto

lemma dict_set_map:
  "distinct ks \<Longrightarrow> k \<in> set ks
     \<Longrightarrow> dict_set (map (\<lambda>x. (x, f x)) ks) k v = map (\<lambda>x. (x, (f(k := v)) x)) ks"
  by (induction ks) auto

lemma dict_get_map:
  "dict_get (map (\<lambda>x. (x, f x)) ks) k = (if k \<in> set ks then Some (f k) else None)"
  by (induction ks) (auto simp: dict_get_def)

lemma first_occurrences_snoc:
  "first_occurrences (xs @ [x]) =
     (if x \<in> set xs then first_occurrences xs else first_occurrences xs @ [x])"
  by (simp add: first_occurrences_def)

lemma set_first_occurrences [simp]: "set (first_occurrences xs) = set xs"
  by (simp add: first_occurrences_def)

lemma distinct_first_occurrences [simp]: "distinct (first_occurrences xs)"
  by (simp add: first_occurrences_def)

section \<open>Validation collects the grouped references\<close>

lemma collect_node_edges_foldl:
  "collect_node_edges known i es bad =
     foldl append_ref bad (map (\<lambda>e. (e, ''`'' @ i @ ''`'')) (filter (\<lambda>e. e \<notin> set known) es))"
  by (induction es arbitrary: bad) (simp_all add: append_ref_def)

lemma declared_refs_Cons:
  "declared_refs ((i, d) # ds) =
     map (\<lambda>e. (e, ''`'' @ i @ ''`'')) (dict_keys (next_node_edges d)) @ declared_refs ds"
  by (simp add: declared_refs_def)

lemma collect_bad_edges_foldl:
  "collect_bad_edges known ds bad =
     foldl append_ref bad (filter (\<lambda>p. fst p \<notin> set known) (declared_refs ds))"
proof (induction ds arbitrary: bad)
  case Nil
  show ?case by (simp add: declared_refs_def)
next
  case (Cons x ds)
  obtain i d where x: "x = (i, d)" by (cases x)
  show ?case
    by (simp add: x Cons.IH declared_refs_Cons collect_node_edges_foldl filter_map o_def)
qed

lemma foldl_append_ref_grouped: "foldl append_ref [] ps = grouped ps"
proof (induction ps rule: rev_induct)
  case Nil
  show ?case by (simp add: grouped_def first_occurrences_def)
next
  case (snoc p ps)
  obtain e v where p: "p = (e, v)" by (cases p)
  let ?f = "\<lambda>k. map snd (filter (\<lambda>p. fst p = k) ps)"
  let ?ks = "first_occurrences (map fst ps)"
  have G: "grouped ps = map (\<lambda>k. (k, ?f k)) ?ks" by (simp add: grouped_def)
  have f': "\<And>k. map snd (filter (\<lambda>q. fst q = k) (ps @ [p])) = (?f(e := ?f e @ [v])) k"
    by (simp add: p)
  show ?case
  proof (cases "e \<in> set (map fst ps)")
    case True
    then have "append_ref (grouped ps) p = map (\<lambda>k. (k, (?f(e := ?f e @ [v])) k)) ?ks"
      unfolding append_ref_def setdefault_append_def G
      by (simp add: p dict_get_map dict_set_map)
    moreover have "first_occurrences (map fst (ps @ [p])) = ?ks"
      using True by (simp add: p first_occurrences_snoc)
    ultimately show ?thesis
      by (simp only: foldl_append foldl_Cons foldl_Nil snoc.IH grouped_def f')
  next
    case False
    then have "append_ref (grouped ps) p = map (\<lambda>k. (k, ?f k)) ?ks @ [(e, [v])]"
      unfolding append_ref_def setdefault_append_def G
      by (simp add: p dict_get_map)
    moreover have ks': "first_occurrences (map fst (ps @ [p])) = ?ks @ [e]"
      using False by (simp add: p first_occurrences_snoc)
    moreover have "map (\<lambda>k. (k, (?f(e := ?f e @ [v])) k)) (?ks @ [e])
                     = map (\<lambda>k. (k, ?f k)) ?ks @ [(e, [v])]"
    proof -
      have "?f e = []" using False by (auto simp: filter_empty_conv)
      moreover have "map (\<lambda>k. (k, (?f(e := ?f e @ [v])) k)) ?ks = map (\<lambda>k. (k, ?f k)) ?ks"
        using False by (intro map_cong) auto
      ultimately show ?thesis by simp
    qed
    ultimately show ?thesis
      by (simp only: foldl_append foldl_Cons foldl_Nil snoc.IH grouped_def f')
  qed
qed

lemma bad_edges_grouped:
  "collect_bad_edges (dict_keys defs) defs [] =
     map (\<lambda>k. (k, referenced_by defs k)) (missing_ids defs)"
proof -
  let ?ps = "filter (\<lambda>p. fst p \<notin> set (dict_keys defs)) (declared_refs defs)"
  have keys: "map fst ?ps = filter (\<lambda>e. e \<notin> set (dict_keys defs)) (map fst (declared_refs defs))"
    by (simp add: filter_map o_def)
  have "collect_bad_edges (dict_keys defs) defs [] = grouped ?ps"
    by (simp add: collect_bad_edges_foldl foldl_append_ref_grouped)
  also have "\<dots> = map (\<lambda>k. (k, map snd (filter (\<lambda>p. fst p = k) ?ps))) (missing_ids defs)"
    by (simp only: grouped_def keys missing_ids_def)
  also have "\<dots> = map (\<lambda>k. (k, referenced_by defs k)) (missing_ids defs)"
  proof (intro map_cong refl)
    fix k assume "k \<in> set (missing_ids defs)"
    then have "k \<notin> set (dict_keys defs)" by (simp add: missing_ids_def)
    then have "filter (\<lambda>p. fst p = k) ?ps = filter (\<lambda>p. fst p = k) (declared_refs defs)"
      by (auto intro: filter_cong)
    then show "(k, map snd (filter (\<lambda>p. fst p = k) ?ps)) = (k, referenced_by defs k)"
      by (simp add: referenced_by_def)
  qed
  finally show ?thesis .
qed

lemma set_declared_refs:
  "set (declared_refs defs) =
     {(e, ''`'' @ i @ ''`'') | e i d. (i, d) \<in> set defs \<and> e \<in> set (dict_keys (next_node_edges d))}"
  by (auto simp: declared_refs_def)

lemma set_missing_ids:
  "set (missing_ids defs) =
     {e. \<exists>i d. (i, d) \<in> set defs \<and> e \<in> set (dict_keys (next_node_edges d))
          \<and> e \<notin> set (dict_keys defs)}"
  by (auto simp: missing_ids_def set_declared_refs image_iff)


lemma validate_edges_cases:
  "validate_edges comma_and defs =
     (case missing_ids defs of
        [] \<Rightarrow> Inr ()
      | [k] \<Rightarrow> Inl (GraphSetupError
                 (''`'' @ k @ ''` is referenced by '' @ comma_and (referenced_by defs k)
                    @ '' but not included in the graph.''))
      | ks \<Rightarrow> Inl (GraphSetupError
                 (''Nodes are referenced in the graph but not included in the graph:'' @ newline
                    @ join newline
                        (map (\<lambda>k. '' `'' @ k @ ''` is referenced by ''
                                     @ comma_and (referenced_by defs k)) ks))))"
  by (simp add: validate_edges_def bad_edges_grouped bad_edge_line_def o_def Let_def
      split: list.splits)


section \<open>Registration\<close>

lemma register_nodes_append:
  "register_nodes defs (xs @ ys) =
     (case register_nodes defs xs of Inl err \<Rightarrow> Inl err | Inr defs' \<Rightarrow> register_nodes defs' ys)"
  by (induction xs arbitrary: defs) (auto split: sum.splits)

lemma get_node_def_node: "get_node_def nt = Inr d \<Longrightarrow> node d = nt"
  by (auto simp: get_node_def_def split: option.splits sum.splits)

lemma dict_get_None: "dict_get d k = None \<longleftrightarrow> k \<notin> fst ` set d"
  by (simp add: dict_get_def map_of_eq_None_iff)

lemma register_nodes_fresh:
  assumes "\<forall>nt \<in> set pre. \<exists>d. get_node_def nt = Inr d"
    and "distinct (map (\<lambda>nt. get_id (cls nt)) pre)"
    and "\<forall>nt \<in> set pre. get_id (cls nt) \<notin> fst ` set defs"
  shows "register_nodes defs pre =
           Inr (defs @ map (\<lambda>nt. (get_id (cls nt), projr (get_node_def nt))) pre)"
  using assms
proof (induction pre arbitrary: defs)
  case Nil
  show ?case by simp
next
  case (Cons nt pre)
  from Cons.prems(1) obtain d where d: "get_node_def nt = Inr d" by auto
  from Cons.prems(3) have fresh: "get_id (cls nt) \<notin> fst ` set defs" by simp
  have step: "register_node defs nt = Inr (defs @ [(get_id (cls nt), d)])"
    using fresh by (simp add: register_node_def d dict_set_new iffD2[OF dict_get_None])
  have "register_nodes (defs @ [(get_id (cls nt), d)]) pre =
          Inr ((defs @ [(get_id (cls nt), d)])
                 @ map (\<lambda>nt. (get_id (cls nt), projr (get_node_def nt))) pre)"
  proof (rule Cons.IH)
    show "\<forall>nt \<in> set pre. \<exists>d. get_node_def nt = Inr d" using Cons.prems(1) by simp
    show "distinct (map (\<lambda>nt. get_id (cls nt)) pre)" using Cons.prems(2) by simp
    show "\<forall>x \<in> set pre. get_id (cls x) \<notin> fst ` set (defs @ [(get_id (cls nt), d)])"
    proof
      fix x assume x: "x \<in> set pre"
      with Cons.prems(2) have "get_id (cls x) \<noteq> get_id (cls nt)" by (auto simp: image_iff)
      moreover from x Cons.prems(3) have "get_id (cls x) \<notin> fst ` set defs" by simp
      ultimately show "get_id (cls x) \<notin> fst ` set (defs @ [(get_id (cls nt), d)])" by simp
    qed
  qed
  then show ?case by (simp add: step d)
qed

lemma register_nodes_Inr:
  "register_nodes defs0 nodes = Inr defs
     \<Longrightarrow> defs = defs0 @ map (\<lambda>nt. (get_id (cls nt), projr (get_node_def nt))) nodes
       \<and> (\<forall>nt \<in> set nodes. \<exists>d. get_node_def nt = Inr d)"
proof (induction nodes arbitrary: defs0)
  case Nil
  then show ?case by simp
next
  case (Cons nt nodes)
  from Cons.prems obtain defs1 where
    r1: "register_node defs0 nt = Inr defs1" and r2: "register_nodes defs1 nodes = Inr defs"
    by (auto split: sum.splits)
  from r1 obtain d where d: "get_node_def nt = Inr d"
    and fresh: "dict_get defs0 (get_id (cls nt)) = None"
    and defs1: "defs1 = dict_set defs0 (get_id (cls nt)) d"
    by (auto simp: register_node_def Let_def split: option.splits sum.splits)
  from fresh have "defs1 = defs0 @ [(get_id (cls nt), d)]"
    by (simp add: defs1 dict_set_new dict_get_None)
  with Cons.IH[OF r2] d show ?case by simp
qed

lemma map_of_map_distinct:
  "distinct (map f xs) \<Longrightarrow> x \<in> set xs \<Longrightarrow> map_of (map (\<lambda>y. (f y, g y)) xs) (f x) = Some (g x)"
  by (induction xs) (auto simp: image_iff)

text \<open>
  Claim C6, as the spec states it: a list with two distinct node types of one identity
  always fails with a setup error naming both. When the first of them has an invalid
  return annotation, \<open>get_node_def\<close> raises \<open>TypeError\<close> while it is registered, before
  the second one is looked at.
\<close>

theorem C6_counterexample:
  "get_id (cls type_A_bad) = ''A'' \<and> get_id (cls type_A2) = ''A''
   \<and> cls_repr (cls type_A_bad) \<noteq> cls_repr (cls type_A2)
   \<and> graph_init comma_and_join [type_A_bad, type_A2] None = Inl (TypeError ''Invalid return type: int'')"
  by (simp add: graph_init_def register_node_def get_node_def_def get_id_def dict_get_def
      type_A_bad_def type_A2_def class_A_def class_A2_def)

text \<open>
  Claim C6, amended: when the node types before the first duplicate have distinct
  identities and valid outcome declarations, and the next node type has the identity
  of one of them, construction fails with the setup error whose message names that
  earlier node type and the duplicate.
\<close>

theorem C6_duplicate_identity:
  assumes "\<forall>nt \<in> set pre. \<exists>d. get_node_def nt = Inr d"
    and "distinct (map (\<lambda>nt. get_id (cls nt)) pre)"
    and "e \<in> set pre"
    and "get_id (cls dup) = get_id (cls e)"
  shows "graph_init comma_and (pre @ dup # rest) nm =
           Inl (GraphSetupError
                  (''Node ID `'' @ get_id (cls dup) @ ''` is not unique '' @ em_dash
                     @ '' found on '' @ cls_repr (cls e) @ '' and '' @ cls_repr (cls dup)))"
proof -
  let ?D = "\<lambda>nt. projr (get_node_def nt)"
  let ?defs = "map (\<lambda>nt. (get_id (cls nt), ?D nt)) pre"
  have pre: "register_nodes [] pre = Inr ?defs"
    using register_nodes_fresh[OF assms(1,2), of "[]"] by simp
  have "dict_get ?defs (get_id (cls dup)) = Some (?D e)"
    unfolding dict_get_def assms(4)
    using map_of_map_distinct[OF assms(2,3), of ?D] by simp
  moreover have "node (?D e) = e"
    using assms(1,3) get_node_def_node by fastforce
  ultimately have "register_node ?defs dup =
      Inl (GraphSetupError (not_unique_msg (get_id (cls dup)) e dup))"
    by (simp add: register_node_def)
  then have "register_nodes [] (pre @ dup # rest) =
      Inl (GraphSetupError (not_unique_msg (get_id (cls dup)) e dup))"
    by (simp add: register_nodes_append pre)
  then show ?thesis by (simp add: graph_init_def not_unique_msg_def)
qed

lemma get_node_def_examples:
  "get_node_def type_A = Inr \<lparr>node = type_A, node_id = ''A'', node_note = None,
      next_node_edges = [(''B'', \<lparr>label = None\<rparr>)], end_edge = None, returns_base_node = False\<rparr>"
  "get_node_def type_B = Inr \<lparr>node = type_B, node_id = ''B'', node_note = None,
      next_node_edges = [], end_edge = Some \<lparr>label = None\<rparr>, returns_base_node = False\<rparr>"
  by (simp_all add: get_node_def_def get_id_def type_A_def type_B_def class_A_def class_B_def)

theorem C6_duplicate_identity_witness:
  "graph_init comma_and_join ([type_A, type_B] @ type_A2 # []) None =
     Inl (GraphSetupError (''Node ID `A` is not unique '' @ em_dash @ '' found on A and A2''))"
proof -
  have h1: "\<forall>nt \<in> set [type_A, type_B]. \<exists>d. get_node_def nt = Inr d"
    by (simp add: get_node_def_examples)
  have h2: "distinct (map (\<lambda>nt. get_id (cls nt)) [type_A, type_B])"
    by (simp add: type_A_def type_B_def example_ids)
  have h3: "type_A \<in> set [type_A, type_B]" by simp
  have h4: "get_id (cls type_A2) = get_id (cls type_A)"
    by (simp add: type_A_def type_A2_def class_A_def class_A2_def get_id_def)
  show ?thesis
    using C6_duplicate_identity[OF h1 h2 h3 h4, of comma_and_join "[]" None]
    by (simp add: type_A_def type_A2_def class_A_def class_A2_def get_id_def)
qed

section \<open>Construction reports\<close>

lemma graph_init_cases:
  "register_nodes [] nodes = Inr defs
     \<Longrightarrow> graph_init comma_and nodes nm =
           (case validate_edges comma_and defs of
              Inl err \<Rightarrow> Inl err
            | Inr _ \<Rightarrow> Inr \<lparr>name = nm, node_defs = defs\<rparr>)"
  by (simp add: graph_init_def)






section \<open>Wildcard nodes\<close>

lemma set_keys_dict_set: "set (dict_keys (dict_set d k v)) = insert k (set (dict_keys d))"
  by (induction d) (auto simp: dict_keys_def)

lemma classify_returns_result:
  "classify_returns rs (es, e, b) = Inr (es', e', b')
     \<Longrightarrow> b' = (b \<or> RtBaseNode \<in> set rs)
       \<and> set (dict_keys es') = set (dict_keys es) \<union> {get_id c | c l. RtNode c l \<in> set rs}"
proof (induction rs arbitrary: es e b)
  case Nil
  then show ?case by simp
next
  case (Cons r rs)
  show ?case
  proof (cases r)
    case RtBaseNode
    with Cons.prems Cons.IH[of es e True] show ?thesis by auto
  next
    case (RtNode c l)
    with Cons.prems Cons.IH[of "dict_set es (get_id c) \<lparr>label = l\<rparr>" e b] show ?thesis
      by (auto simp: set_keys_dict_set)
  next
    case (RtEnd l)
    with Cons.prems Cons.IH[of es "Some \<lparr>label = l\<rparr>" b] show ?thesis by auto
  next
    case (RtOther t)
    with Cons.prems show ?thesis by simp
  qed
qed

lemma get_node_def_result:
  assumes "get_node_def nt = Inr d"
  shows "returns_base_node d = (RtBaseNode \<in> set (the (return_hint nt)))"
    and "set (dict_keys (next_node_edges d)) =
           {get_id c | c l. RtNode c l \<in> set (the (return_hint nt))}"
proof -
  from assms obtain rs es e b where rs: "return_hint nt = Some rs"
    and c: "classify_returns rs ([], None, False) = Inr (es, e, b)"
    and d: "d = \<lparr>node = nt, node_id = get_id (cls nt), node_note = doc nt,
                 next_node_edges = es, end_edge = e, returns_base_node = b\<rparr>"
    by (auto simp: get_node_def_def split: option.splits sum.splits)
  from classify_returns_result[OF c] show
    "returns_base_node d = (RtBaseNode \<in> set (the (return_hint nt)))"
    "set (dict_keys (next_node_edges d)) =
           {get_id c | c l. RtNode c l \<in> set (the (return_hint nt))}"
    by (simp_all add: d rs dict_keys_def)
qed

lemma validate_edges_ok:
  "validate_edges comma_and defs = Inr () \<longleftrightarrow>
     (\<forall>(i, d) \<in> set defs. \<forall>e \<in> set (dict_keys (next_node_edges d)). e \<in> set (dict_keys defs))"
proof -
  have "validate_edges comma_and defs = Inr () \<longleftrightarrow> missing_ids defs = []"
    by (simp add: validate_edges_cases split: list.splits)
  also have "\<dots> \<longleftrightarrow> set (missing_ids defs) = {}" by simp
  also have "\<dots> \<longleftrightarrow>
     (\<forall>(i, d) \<in> set defs. \<forall>e \<in> set (dict_keys (next_node_edges d)). e \<in> set (dict_keys defs))"
    unfolding set_missing_ids by auto
  finally show ?thesis .
qed

lemma validate_edges_error:
  "validate_edges comma_and defs = Inl err \<Longrightarrow> \<exists>m. err = GraphSetupError m"
  by (auto simp: validate_edges_def Let_def split: if_splits)

text \<open>
  Claim C4, as the spec states it: a node whose outcome set includes the wildcard is
  exempt, as a whole, from the validation of successor references. \<open>_validate_edges\<close>
  has no such exemption: the node type \<open>W\<close>, declared to return \<open>BaseNode\<close> or \<open>Z\<close>,
  gets the wildcard flag, and construction from \<open>[W]\<close> fails because \<open>Z\<close> is not
  registered.
\<close>

theorem C4_wildcard_counterexample:
  "map_sum id returns_base_node (get_node_def type_W) = Inr True
   \<and> graph_init comma_and_join [type_W] None =
       Inl (GraphSetupError ''`Z` is referenced by `W` but not included in the graph.'')"
  by (simp add: Let_def graph_init_def register_node_def get_node_def_def get_id_def dict_get_def
      validate_edges_def dict_keys_def setdefault_append_def bad_edge_line_def comma_and_join_def
      type_W_def class_W_def class_Z_def)

text \<open>
  Claim C4, amended: validation looks at the successor identities that a node type
  names, whether or not it also declares the wildcard, and the wildcard itself names
  none. Once every node type is registered, construction succeeds exactly when every
  node type named as a successor by any node type is registered; and a node type that
  declares the wildcard (its definition carries the wildcard flag) and names a successor
  that is not registered makes construction fail with a setup error.
\<close>

theorem C4_wildcard_nodes:
  assumes "register_nodes [] nodes = Inr defs"
  shows "((\<exists>g. graph_init comma_and nodes nm = Inr g) \<longleftrightarrow>
            (\<forall>nt \<in> set nodes. \<forall>c l. RtNode c l \<in> set (the (return_hint nt))
               \<longrightarrow> get_id c \<in> (\<lambda>n. get_id (cls n)) ` set nodes))
       \<and> (nt \<in> set nodes \<and> RtBaseNode \<in> set (the (return_hint nt))
            \<and> RtNode c l \<in> set (the (return_hint nt))
            \<and> get_id c \<notin> (\<lambda>n. get_id (cls n)) ` set nodes
          \<longrightarrow> (\<exists>d. (get_id (cls nt), d) \<in> set defs \<and> returns_base_node d)
            \<and> (\<exists>m. graph_init comma_and nodes nm = Inl (GraphSetupError m)))"
proof -
  let ?D = "\<lambda>nt. projr (get_node_def nt)"
  from register_nodes_Inr[OF assms] have
    defs: "defs = map (\<lambda>nt. (get_id (cls nt), ?D nt)) nodes"
    and valid: "\<forall>nt \<in> set nodes. \<exists>d. get_node_def nt = Inr d" by simp_all
  have D: "get_node_def nt = Inr (?D nt)" if "nt \<in> set nodes" for nt
    using valid that by fastforce
  have keys: "set (dict_keys defs) = (\<lambda>n. get_id (cls n)) ` set nodes"
    by (simp add: defs dict_keys_def o_def)
  have "(\<exists>g. graph_init comma_and nodes nm = Inr g) \<longleftrightarrow> validate_edges comma_and defs = Inr ()"
    by (auto simp: graph_init_cases[OF assms] split: sum.splits)
  also have "\<dots> \<longleftrightarrow>
      (\<forall>nt \<in> set nodes. \<forall>e \<in> set (dict_keys (next_node_edges (?D nt))).
          e \<in> (\<lambda>n. get_id (cls n)) ` set nodes)"
    unfolding validate_edges_ok keys by (auto simp: defs)
  also have "\<dots> \<longleftrightarrow>
      (\<forall>nt \<in> set nodes. \<forall>c l. RtNode c l \<in> set (the (return_hint nt))
               \<longrightarrow> get_id c \<in> (\<lambda>n. get_id (cls n)) ` set nodes)"
    using get_node_def_result(2)[OF D] by (simp add: Ball_def) blast
  finally have part1: "(\<exists>g. graph_init comma_and nodes nm = Inr g) \<longleftrightarrow>
            (\<forall>nt \<in> set nodes. \<forall>c l. RtNode c l \<in> set (the (return_hint nt))
               \<longrightarrow> get_id c \<in> (\<lambda>n. get_id (cls n)) ` set nodes)" .
  have part2: "(\<exists>d. (get_id (cls nt), d) \<in> set defs \<and> returns_base_node d)
            \<and> (\<exists>m. graph_init comma_and nodes nm = Inl (GraphSetupError m))"
    if nt: "nt \<in> set nodes" and w: "RtBaseNode \<in> set (the (return_hint nt))"
      and c: "RtNode c l \<in> set (the (return_hint nt))"
      and miss: "get_id c \<notin> (\<lambda>n. get_id (cls n)) ` set nodes"
  proof
    have "(get_id (cls nt), ?D nt) \<in> set defs" using nt by (auto simp: defs)
    moreover have "returns_base_node (?D nt)"
      using get_node_def_result(1)[OF D[OF nt]] w by simp
    ultimately show "\<exists>d. (get_id (cls nt), d) \<in> set defs \<and> returns_base_node d" by blast
  next
    from part1 nt c miss have no: "\<not> (\<exists>g. graph_init comma_and nodes nm = Inr g)" by blast
    then obtain err where err: "validate_edges comma_and defs = Inl err"
      and g: "graph_init comma_and nodes nm = Inl err"
      by (auto simp: graph_init_cases[OF assms] split: sum.splits)
    from validate_edges_error[OF err] g
    show "\<exists>m. graph_init comma_and nodes nm = Inl (GraphSetupError m)" by auto
  qed
  from part1 part2 show ?thesis by blast
qed

lemma register_W_B: "register_nodes [] [type_W, type_B] = Inr defs_W_B"
  by (simp add: Let_def register_node_def get_node_def_def get_id_def dict_get_def defs_W_B_def
      type_W_def type_B_def class_W_def class_B_def class_Z_def)

theorem C4_wildcard_nodes_witness:
  "register_nodes [] [type_W, type_B] = Inr defs_W_B
   \<and> type_W \<in> set [type_W, type_B]
   \<and> RtBaseNode \<in> set (the (return_hint type_W))
   \<and> RtNode class_Z None \<in> set (the (return_hint type_W))
   \<and> get_id class_Z \<notin> (\<lambda>n. get_id (cls n)) ` set [type_W, type_B]
   \<and> (\<exists>d. (get_id (cls type_W), d) \<in> set defs_W_B \<and> returns_base_node d)
   \<and> (\<exists>m. graph_init comma_and_join [type_W, type_B] None = Inl (GraphSetupError m))"
proof -
  have h1: "type_W \<in> set [type_W, type_B]" by simp
  have h2: "RtBaseNode \<in> set (the (return_hint type_W))" by (simp add: type_W_def)
  have h3: "RtNode class_Z None \<in> set (the (return_hint type_W))" by (simp add: type_W_def)
  have h4: "get_id class_Z \<notin> (\<lambda>n. get_id (cls n)) ` set [type_W, type_B]"
    by (simp add: get_id_def type_W_def type_B_def class_W_def class_B_def class_Z_def)
  from C4_wildcard_nodes[OF register_W_B, of comma_and_join None type_W class_Z None] h1 h2 h3 h4
  have "(\<exists>d. (get_id (cls type_W), d) \<in> set defs_W_B \<and> returns_base_node d)
        \<and> (\<exists>m. graph_init comma_and_join [type_W, type_B] None = Inl (GraphSetupError m))"
    by blast
  with register_W_B h1 h2 h3 h4 show ?thesis by blast
qed

section \<open>The retry counter\<close>

lemma fails_validation_counter [simp]:
  "fails_validation (r\<lparr>current_retry := c\<rparr>) m = fails_validation r m"
  by (simp add: fails_validation_def)

lemma retriever_run_fails:
  assumes "fails_validation r m"
  shows "current_retry (fst (retriever_run r ctx m)) = current_retry r + 1"
    and "raised (snd (retriever_run r ctx m)) \<longleftrightarrow> current_retry r + 1 > max_retries r"
    and "fst (retriever_run r ctx m) = r\<lparr>current_retry := current_retry r + 1\<rparr>"
  using assms
  by (auto simp: fails_validation_def retriever_run_def Let_def raised_def split: sum.splits)

lemma retriever_run_succeeds:
  assumes "succeeds r ctx m"
  shows "fst (retriever_run r ctx m) = r\<lparr>current_retry := 0\<rparr>"
    and "\<not> raised (snd (retriever_run r ctx m))"
  using assms
  by (auto simp: succeeds_def retriever_run_def raised_def split: sum.splits prod.splits)

lemma run_calls_append:
  "run_calls r ctx (xs @ ys) =
     (let (r1, o1) = run_calls r ctx xs; (r2, o2) = run_calls r1 ctx ys in (r2, o1 @ o2))"
  by (induction xs arbitrary: r) (simp_all add: case_prod_beta Let_def)

lemma run_calls_failures:
  assumes "\<forall>m \<in> set ms. fails_validation r m"
  shows "fst (run_calls r ctx ms) = r\<lparr>current_retry := current_retry r + int (length ms)\<rparr>
       \<and> length (snd (run_calls r ctx ms)) = length ms
       \<and> (\<forall>j < length ms. raised (snd (run_calls r ctx ms) ! j)
                \<longleftrightarrow> current_retry r + int j + 1 > max_retries r)"
  using assms
proof (induction ms arbitrary: r)
  case Nil
  show ?case by simp
next
  case (Cons m ms)
  let ?r1 = "r\<lparr>current_retry := current_retry r + 1\<rparr>"
  from Cons.prems have f: "fails_validation r m" by simp
  have r1: "fst (retriever_run r ctx m) = ?r1" by (rule retriever_run_fails(3)[OF f])
  have "\<forall>m \<in> set ms. fails_validation ?r1 m" using Cons.prems by simp
  from Cons.IH[OF this] have ih:
    "fst (run_calls ?r1 ctx ms) = ?r1\<lparr>current_retry := current_retry ?r1 + int (length ms)\<rparr>"
    "length (snd (run_calls ?r1 ctx ms)) = length ms"
    "\<forall>j < length ms. raised (snd (run_calls ?r1 ctx ms) ! j)
                \<longleftrightarrow> current_retry ?r1 + int j + 1 > max_retries ?r1" by simp_all
  have unfold: "run_calls r ctx (m # ms) =
      (fst (run_calls ?r1 ctx ms), snd (retriever_run r ctx m) # snd (run_calls ?r1 ctx ms))"
    using r1 by (simp add: case_prod_beta Let_def)
  have "\<forall>j < length (m # ms). raised (snd (run_calls r ctx (m # ms)) ! j)
                \<longleftrightarrow> current_retry r + int j + 1 > max_retries r"
  proof (intro allI impI)
    fix j assume "j < length (m # ms)"
    show "raised (snd (run_calls r ctx (m # ms)) ! j)
                \<longleftrightarrow> current_retry r + int j + 1 > max_retries r"
    proof (cases j)
      case 0
      then show ?thesis using retriever_run_fails(2)[OF f, of ctx]
        by (simp add: unfold del: run_calls.simps)
    next
      case (Suc k)
      with \<open>j < length (m # ms)\<close> have "k < length ms" by simp
      with ih(3) Suc show ?thesis by (simp add: unfold add.assoc del: run_calls.simps)
    qed
  qed
  then show ?case using ih(1,2) by (simp add: unfold add.assoc del: run_calls.simps)
qed

text \<open>
  Claim C10: a call that validates and whose function returns leaves the retry counter
  at zero; a call that fails validation adds one to it and raises exactly when the
  counter then exceeds \<open>max_retries\<close>. So in a run of consecutive failing calls from a
  counter of zero, the failure number \<open>j + 1\<close> raises exactly when \<open>j + 1\<close> exceeds
  \<open>max_retries\<close>; and failures separated by a successful call do not add up: two runs
  of at most \<open>max_retries\<close> failures around a success raise nothing, whatever their
  total.
\<close>

theorem C10_retry_counter:
  "(succeeds r ctx m
      \<longrightarrow> current_retry (fst (retriever_run r ctx m)) = 0
        \<and> \<not> raised (snd (retriever_run r ctx m)))
   \<and> (fails_validation r m'
      \<longrightarrow> current_retry (fst (retriever_run r ctx m')) = current_retry r + 1
        \<and> (raised (snd (retriever_run r ctx m')) \<longleftrightarrow> current_retry r + 1 > max_retries r))
   \<and> (current_retry r = 0 \<and> (\<forall>x \<in> set ms. fails_validation r x)
      \<longrightarrow> current_retry (fst (run_calls r ctx ms)) = int (length ms)
        \<and> (\<forall>j < length ms. raised (snd (run_calls r ctx ms) ! j) \<longleftrightarrow> int j + 1 > max_retries r))
   \<and> (current_retry r = 0 \<and> (\<forall>x \<in> set ms1. fails_validation r x)
        \<and> succeeds (fst (run_calls r ctx ms1)) ctx s \<and> (\<forall>x \<in> set ms2. fails_validation r x)
        \<and> int (length ms1) \<le> max_retries r \<and> int (length ms2) \<le> max_retries r
      \<longrightarrow> (\<forall>out \<in> set (snd (run_calls r ctx (ms1 @ s # ms2))). \<not> raised out))"
proof (intro conjI impI)
  assume "succeeds r ctx m"
  from retriever_run_succeeds[OF this]
  show "current_retry (fst (retriever_run r ctx m)) = 0" "\<not> raised (snd (retriever_run r ctx m))"
    by simp_all
next
  assume f: "fails_validation r m'"
  from retriever_run_fails(1,2)[OF f]
  show "current_retry (fst (retriever_run r ctx m')) = current_retry r + 1"
    "raised (snd (retriever_run r ctx m')) \<longleftrightarrow> current_retry r + 1 > max_retries r"
    by simp_all
next
  assume a: "current_retry r = 0 \<and> (\<forall>x \<in> set ms. fails_validation r x)"
  with run_calls_failures[of ms r ctx]
  show "current_retry (fst (run_calls r ctx ms)) = int (length ms)"
    "\<forall>j < length ms. raised (snd (run_calls r ctx ms) ! j) \<longleftrightarrow> int j + 1 > max_retries r"
    by simp_all
next
  assume a: "current_retry r = 0 \<and> (\<forall>x \<in> set ms1. fails_validation r x)
        \<and> succeeds (fst (run_calls r ctx ms1)) ctx s \<and> (\<forall>x \<in> set ms2. fails_validation r x)
        \<and> int (length ms1) \<le> max_retries r \<and> int (length ms2) \<le> max_retries r"
  let ?r1 = "fst (run_calls r ctx ms1)"
  let ?r2 = "?r1\<lparr>current_retry := 0\<rparr>"
  from a run_calls_failures[of ms1 r ctx] have
    r1: "?r1 = r\<lparr>current_retry := int (length ms1)\<rparr>"
    and l1: "length (snd (run_calls r ctx ms1)) = length ms1"
    and o1: "\<forall>j < length ms1. \<not> raised (snd (run_calls r ctx ms1) ! j)" by auto
  from a have s: "succeeds ?r1 ctx s" by simp
  have r2: "fst (retriever_run ?r1 ctx s) = ?r2" "\<not> raised (snd (retriever_run ?r1 ctx s))"
    using retriever_run_succeeds[OF s] by simp_all
  have "\<forall>x \<in> set ms2. fails_validation ?r2 x" using a by (simp add: r1)
  from run_calls_failures[OF this, of ctx] a have
    l2: "length (snd (run_calls ?r2 ctx ms2)) = length ms2"
    and o2: "\<forall>j < length ms2. \<not> raised (snd (run_calls ?r2 ctx ms2) ! j)"
    by (auto simp: r1)
  have outs: "snd (run_calls r ctx (ms1 @ s # ms2)) =
      snd (run_calls r ctx ms1) @ snd (retriever_run ?r1 ctx s) # snd (run_calls ?r2 ctx ms2)"
    using r2(1) by (simp add: run_calls_append case_prod_beta Let_def)
  show "\<forall>out \<in> set (snd (run_calls r ctx (ms1 @ s # ms2))). \<not> raised out"
    unfolding outs using o1 o2 r2(2) l1 l2 by (auto simp: in_set_conv_nth)
qed

theorem C10_retry_counter_witness:
  "snd (run_calls retriever_ex () [bad_call, bad_call]) =
     [Inr (FunctionValidationError ''2'' ''lookup'' [''invalid'']),
      Inl (ValidationError [''invalid''])]
   \<and> current_retry (fst (run_calls retriever_ex () [bad_call, bad_call])) = 2
   \<and> snd (run_calls retriever_ex () [bad_call, ok_call, bad_call]) =
     [Inr (FunctionValidationError ''2'' ''lookup'' [''invalid'']),
      Inr (FunctionResponse ''1'' ''lookup'' ''found''),
      Inr (FunctionValidationError ''2'' ''lookup'' [''invalid''])]
   \<and> current_retry (fst (retriever_run retriever_ex () ok_call)) = 0"
proof -
  have ev: "validator retriever_ex (arguments bad_call) = Inl [''invalid'']"
    "validator retriever_ex (arguments ok_call) = Inr [(''key'', PStr ''k'')]"
    by (simp_all add: retriever_ex_def ok_call_def bad_call_def)
  have f: "fails_validation retriever_ex bad_call" by (simp add: fails_validation_def ev)
  have s0: "succeeds retriever_ex () ok_call"
    by (simp add: succeeds_def call_args_def dict_pop_def dict_get_def truthy_def raised_def
        retriever_ex_def ok_call_def)
  have c0: "current_retry retriever_ex = 0" by (simp add: retriever_ex_def)
  have run1: "run_calls retriever_ex () [bad_call] =
      (retriever_ex\<lparr>current_retry := 1\<rparr>,
       [Inr (FunctionValidationError ''2'' ''lookup'' [''invalid''])])"
    by (simp add: retriever_run_def ev Let_def retriever_ex_def bad_call_def)
  have s1: "succeeds (fst (run_calls retriever_ex () [bad_call])) () ok_call"
    unfolding run1
    by (simp add: succeeds_def call_args_def dict_pop_def dict_get_def truthy_def raised_def
        retriever_ex_def ok_call_def)
  have m: "int (length [bad_call]) \<le> max_retries retriever_ex" by (simp add: retriever_ex_def)
  show ?thesis
    using C10_retry_counter[of retriever_ex "()" ok_call bad_call "[bad_call, bad_call]"
        "[bad_call]" ok_call "[bad_call]"] f s0 s1 c0 m
    by (simp add: retriever_run_def ev Let_def call_args_def dict_pop_def dict_get_def truthy_def
        retriever_ex_def ok_call_def bad_call_def)
qed

end
